theory Spec2Isabelle
  imports Main "HOL-Library.AList"
begin

section \<open>Strings and the kana tables of game.py\<close>

text \<open>
  A Python \<open>str\<close> is a sequence of Unicode code points, so a string is a list of
  code points and a one-character string is a code point. The names looked up with
  \<open>unicodedata.lookup\<close> and the literals of the source are the code points below.
\<close>

type_synonym uchar = nat
type_synonym ustring = "uchar list"

definition HIRAGANA_LETTER_SMALL_A :: uchar where
  "HIRAGANA_LETTER_SMALL_A = 0x3041"

definition HIRAGANA_DIGRAPH_YORI :: uchar where
  "HIRAGANA_DIGRAPH_YORI = 0x309F"

definition KATAKANA_HIRAGANA_DOUBLE_HYPHEN :: uchar where
  "KATAKANA_HIRAGANA_DOUBLE_HYPHEN = 0x30A0"

definition KATAKANA_DIGRAPH_KOTO :: uchar where
  "KATAKANA_DIGRAPH_KOTO = 0x30FF"

definition KATAKANA_LETTER_SMALL_A :: uchar where
  "KATAKANA_LETTER_SMALL_A = 0x30A1"

definition KATAKANA_LETTER_N :: uchar where
  "KATAKANA_LETTER_N = 0x30F3"

definition HIRAGANA_LETTER_N :: uchar where
  \<comment> \<open>the literal \<open>'\<dots>'\<close> of the source that the checks on the last mora use, U+3093\<close>
  "HIRAGANA_LETTER_N = 0x3093"

definition is_hiragana :: "ustring \<Rightarrow> bool" where
  "is_hiragana text =
     list_all (\<lambda>c. c \<ge> HIRAGANA_LETTER_SMALL_A \<and> c \<le> HIRAGANA_DIGRAPH_YORI) text"

definition is_katakana :: "ustring \<Rightarrow> bool" where
  "is_katakana text =
     list_all (\<lambda>c. c \<ge> KATAKANA_HIRAGANA_DOUBLE_HYPHEN \<and> c \<le> KATAKANA_DIGRAPH_KOTO) text"

text \<open>
  The character function of \<open>katakana_to_hiragana\<close>:
  \<open>chr(ord(h_sa) + ord(c) - ord(k_sa)) if is_katakana(c) and ord(c) <= ord(k_n) else c\<close>.
  Where the first branch is taken \<open>c\<close> is at least U+30A0, so the sum is at least
  U+30A1 and the subtraction on \<open>nat\<close> is the integer one; the result is at most
  U+3093, inside the range of \<open>chr\<close>.
\<close>

definition kana_char :: "uchar \<Rightarrow> uchar" where
  "kana_char c =
     (if is_katakana [c] \<and> c \<le> KATAKANA_LETTER_N
      then HIRAGANA_LETTER_SMALL_A + c - KATAKANA_LETTER_SMALL_A
      else c)"

definition katakana_to_hiragana :: "ustring \<Rightarrow> ustring" where
  "katakana_to_hiragana text = map kana_char text"

text \<open>\<open>Game.small_to_big\<close>, applied with \<open>str.translate\<close> to a one-character string.\<close>

definition small_to_big :: "uchar \<Rightarrow> uchar" where
  "small_to_big c =
     (if c = 0x3083 then 0x3084
      else if c = 0x3085 then 0x3086
      else if c = 0x3087 then 0x3088
      else c)"

section \<open>Words, failures and the game state\<close>

datatype GameWord = GameWord (kanji: ustring) (kana: ustring) (rank: int) (is_noun: bool)

text \<open>
  The messages of the source are format strings; a message is modelled by which format
  string it is and the arguments it is filled with.
\<close>

datatype message =
    NotLastMora ustring uchar
  | NotKnown ustring
  | AlreadySeen ustring
  | NotNoun ustring ustring
  | EndsWithN ustring
  | GiveUp
  | WordsRequired

datatype error =
    InvalidWordException message
  | UnknownWordException message
  | RuntimeError message
  | IndexError
  | KeyError

text \<open>
  A \<open>dict\<close> is a list of key-value pairs with distinct keys, in the order of
  insertion, which is the order in which Python 3.7 and later iterate over it.
\<close>

type_synonym dict = "(ustring \<times> GameWord) list"

record Game =
  words :: "GameWord list"
  known_words :: dict
  seen_words :: "GameWord list"
  player_score :: int

subsection \<open>The Python primitives the engine uses\<close>

definition py_last :: "'a list \<Rightarrow> error + 'a" where
  \<comment> \<open>\<open>xs[-1]\<close>\<close>
  "py_last xs = (if xs = [] then Inl IndexError else Inr (last xs))"

definition py_first :: "'a list \<Rightarrow> error + 'a" where
  \<comment> \<open>\<open>xs[0]\<close>\<close>
  "py_first xs = (case xs of [] \<Rightarrow> Inl IndexError | x # _ \<Rightarrow> Inr x)"

definition startswith :: "ustring \<Rightarrow> uchar \<Rightarrow> bool" where
  "startswith s c = (case s of [] \<Rightarrow> False | x # _ \<Rightarrow> x = c)"

definition endswith :: "ustring \<Rightarrow> uchar \<Rightarrow> bool" where
  "endswith s c = (s \<noteq> [] \<and> last s = c)"

definition dict_getitem :: "dict \<Rightarrow> ustring \<Rightarrow> error + GameWord" where
  \<comment> \<open>\<open>d[k]\<close>\<close>
  "dict_getitem d k = (case map_of d k of None \<Rightarrow> Inl KeyError | Some w \<Rightarrow> Inr w)"

definition dict_contains :: "dict \<Rightarrow> ustring \<Rightarrow> bool" where
  \<comment> \<open>\<open>k in d\<close>\<close>
  "dict_contains d k = (map_of d k \<noteq> None)"

definition dict_keys :: "dict \<Rightarrow> ustring list" where
  "dict_keys d = map fst d"

definition dict_values :: "dict \<Rightarrow> GameWord list" where
  "dict_values d = map snd d"

text \<open>
  \<open>random.choice(seq)\<close> raises IndexError on an empty sequence and otherwise returns
  \<open>seq[k]\<close>, where \<open>k\<close> is drawn uniformly from \<open>0 .. len(seq) - 1\<close>. The draw is a
  parameter: a draw below the length is used as it is, and any other natural number is
  reduced modulo the length. A uniform choice is therefore one in which the draws below
  the length, each as likely as the other, give every element equally often.
\<close>

definition random_choice :: "'a list \<Rightarrow> nat \<Rightarrow> error + 'a" where
  "random_choice xs r = (if xs = [] then Inl IndexError else Inr (xs ! (r mod length xs)))"

text \<open>
  \<open>max(words, key=lambda x: x.rank)\<close> on a non-empty list: the first element of
  greatest rank.
\<close>

fun max_by_rank :: "GameWord \<Rightarrow> GameWord list \<Rightarrow> GameWord" where
  "max_by_rank best [] = best"
| "max_by_rank best (w # ws) =
     (if rank w > rank best then max_by_rank w ws else max_by_rank best ws)"

text \<open>
  The dict comprehension \<open>{katakana_to_hiragana(w.kana): w for w in words if w.rank <= max_rank}\<close>:
  a later word replaces the value of an earlier one with the same key, and the key keeps
  the place of its first insertion.
\<close>

fun build_known_words :: "int \<Rightarrow> dict \<Rightarrow> GameWord list \<Rightarrow> dict" where
  "build_known_words max_rank d [] = d"
| "build_known_words max_rank d (w # ws) =
     (if rank w \<le> max_rank
      then build_known_words max_rank (AList.update (katakana_to_hiragana (kana w)) w d) ws
      else build_known_words max_rank d ws)"

text \<open>
  \<open>list(itertools.islice(gen, n))\<close> over the generator \<open>(x for x in xs if p x)\<close>:
  the scan stops as soon as \<open>n\<close> elements have been produced.
\<close>

fun islice_filter :: "nat \<Rightarrow> ('a \<Rightarrow> bool) \<Rightarrow> 'a list \<Rightarrow> 'a list" where
  "islice_filter 0 p xs = []"
| "islice_filter (Suc n) p [] = []"
| "islice_filter (Suc n) p (x # xs) =
     (if p x then x # islice_filter n p xs else islice_filter (Suc n) p xs)"

section \<open>The engine\<close>

definition update_seen :: "GameWord \<Rightarrow> Game \<Rightarrow> Game" where
  "update_seen word g = g\<lparr>seen_words := seen_words g @ [word]\<rparr>"

text \<open>
  The loop that picks the initial word. \<open>rnd i\<close> is the \<open>i\<close>-th draw of the random
  source. The loop has no bound in the source, so the result is an option: \<open>None\<close>
  is the loop that never leaves.
\<close>

partial_function (option) pick_initial :: "dict \<Rightarrow> (nat \<Rightarrow> nat) \<Rightarrow> nat \<Rightarrow> (error + GameWord) option" where
  "pick_initial kw rnd i =
     (case random_choice (dict_keys kw) (rnd i) of
        Inl e \<Rightarrow> Some (Inl e)
      | Inr key \<Rightarrow>
          (case dict_getitem kw key of
             Inl e \<Rightarrow> Some (Inl e)
           | Inr first \<Rightarrow>
               if is_noun first
               then (case py_last (kana first) of
                       Inl e \<Rightarrow> Some (Inl e)
                     | Inr c \<Rightarrow>
                         if c \<noteq> HIRAGANA_LETTER_N then Some (Inr first)
                         else pick_initial kw rnd (Suc i))
               else pick_initial kw rnd (Suc i)))"

text \<open>
  The default of \<open>max_rank\<close>. It is computed after the check for an empty list of
  words, so the list has a head here.
\<close>

definition resolve_max_rank :: "GameWord list \<Rightarrow> int option \<Rightarrow> int" where
  "resolve_max_rank ws max_rank =
     (case max_rank of
        Some m \<Rightarrow> m
      | None \<Rightarrow> rank (max_by_rank (hd ws) (tl ws)))"

definition Game_init :: "GameWord list \<Rightarrow> int option \<Rightarrow> (nat \<Rightarrow> nat) \<Rightarrow> (error + Game) option" where
  "Game_init ws max_rank rnd =
     (if length ws = 0 then Some (Inl (RuntimeError WordsRequired))
      else
        let g = \<lparr>words = ws,
                 known_words = build_known_words (resolve_max_rank ws max_rank) [] ws,
                 seen_words = [],
                 player_score = 0\<rparr>
        in (case pick_initial (known_words g) rnd 0 of
              None \<Rightarrow> None
            | Some (Inl e) \<Rightarrow> Some (Inl e)
            | Some (Inr first) \<Rightarrow> Some (Inr (update_seen first g))))"

text \<open>\<open>mora = self.seen_words[-1].kana[-1]; mora = mora.translate(self.small_to_big)\<close>\<close>

definition last_mora :: "Game \<Rightarrow> error + uchar" where
  "last_mora g =
     (case py_last (seen_words g) of
        Inl e \<Rightarrow> Inl e
      | Inr w \<Rightarrow>
          (case py_last (kana w) of
             Inl e \<Rightarrow> Inl e
           | Inr c \<Rightarrow> Inr (small_to_big c)))"

definition validate :: "Game \<Rightarrow> ustring \<Rightarrow> error + unit" where
  "validate g text =
     (case last_mora g of
        Inl e \<Rightarrow> Inl e
      | Inr mora \<Rightarrow>
          (case py_first text of
             Inl e \<Rightarrow> Inl e
           | Inr c \<Rightarrow>
               if c \<noteq> mora then Inl (InvalidWordException (NotLastMora text mora))
               else if \<not> dict_contains (known_words g) text
                 then Inl (UnknownWordException (NotKnown text))
               else
                 (case dict_getitem (known_words g) text of
                    Inl e \<Rightarrow> Inl e
                  | Inr word \<Rightarrow>
                      if word \<in> set (seen_words g)
                        then Inl (InvalidWordException (AlreadySeen text))
                      else if \<not> is_noun word
                        then Inl (InvalidWordException (NotNoun text (kanji word)))
                      else if endswith text HIRAGANA_LETTER_N
                        then Inl (InvalidWordException (EndsWithN text))
                      else Inr ())))"

definition candidate :: "Game \<Rightarrow> uchar \<Rightarrow> GameWord \<Rightarrow> bool" where
  "candidate g mora word =
     (startswith (kana word) mora \<and>
      word \<notin> set (seen_words g) \<and>
      is_noun word \<and>
      \<not> endswith (kana word) HIRAGANA_LETTER_N)"

definition next_word :: "nat \<Rightarrow> Game \<Rightarrow> (error + GameWord) \<times> Game" where
  "next_word r g =
     (if length (seen_words g) = 1 then (Inr (seen_words g ! 0), g)
      else
        (case last_mora g of
           Inl e \<Rightarrow> (Inl e, g)
         | Inr mora \<Rightarrow>
             let candidates = islice_filter 10 (candidate g mora) (dict_values (known_words g))
             in if candidates \<noteq> []
                then (case random_choice candidates r of
                        Inl e \<Rightarrow> (Inl e, g)
                      | Inr new_word \<Rightarrow> (Inr new_word, update_seen new_word g))
                else (Inl (InvalidWordException GiveUp), g)))"

definition send_word :: "ustring \<Rightarrow> Game \<Rightarrow> (error + GameWord) \<times> Game" where
  "send_word raw g =
     (let text = katakana_to_hiragana raw
      in case validate g text of
           Inl e \<Rightarrow> (Inl e, g)
         | Inr _ \<Rightarrow>
             (case dict_getitem (known_words g) text of
                Inl e \<Rightarrow> (Inl e, g)
              | Inr word \<Rightarrow>
                  (Inr word, update_seen word (g\<lparr>player_score := player_score g + 1\<rparr>))))"

text \<open>
  The states of a game: the one the constructor returns, for any words, rank bound and
  random source, and every state a call of \<open>next_word\<close> or \<open>send_word\<close> leaves
  behind (a failed call leaves the state it found).
\<close>

inductive reachable :: "Game \<Rightarrow> bool" where
  reach_init: "Game_init ws max_rank rnd = Some (Inr g) \<Longrightarrow> reachable g"
| reach_next: "reachable g \<Longrightarrow> next_word r g = (res, g') \<Longrightarrow> reachable g'"
| reach_send: "reachable g \<Longrightarrow> send_word raw g = (res, g') \<Longrightarrow> reachable g'"

section \<open>The properties, in the words of the specification\<close>

text \<open>
  The required starting unit: the last mora of the last played word, with the small
  forms folded. It is read only where the chain and that word's reading are not empty.
\<close>

definition required_unit :: "Game \<Rightarrow> uchar" where
  "required_unit g = small_to_big (last (kana (last (seen_words g))))"

text \<open>
  Continuity of a chain: for every adjacent pair, the first character of the later
  word's reading is the folded last character of the earlier word's reading.
\<close>

fun continuity :: "GameWord list \<Rightarrow> bool" where
  "continuity (earlier # later # rest) =
     (kana earlier \<noteq> [] \<and> kana later \<noteq> [] \<and>
      hd (kana later) = small_to_big (last (kana earlier)) \<and>
      continuity (later # rest))"
| "continuity _ = True"

text \<open>
  The engine's sample: at most the first 10 vocabulary entries, in the order of the
  index, whose reading starts with the required unit, that are not in the chain, that
  are nouns and that do not end in the forbidden unit.
\<close>

definition eligible :: "Game \<Rightarrow> GameWord \<Rightarrow> bool" where
  "eligible g w =
     (kana w \<noteq> [] \<and> hd (kana w) = required_unit g \<and>
      w \<notin> set (seen_words g) \<and>
      is_noun w \<and>
      \<not> (kana w \<noteq> [] \<and> last (kana w) = HIRAGANA_LETTER_N))"

definition sampled_candidates :: "Game \<Rightarrow> GameWord list" where
  "sampled_candidates g = take 10 (filter (eligible g) (map snd (known_words g)))"

text \<open>
  The folding of the small forms: the three small characters ya, yu and yo (U+3083,
  U+3085, U+3087) count as their full-size characters (U+3084, U+3086, U+3088); every
  other character counts as itself.
\<close>

definition fold_small_form :: "uchar \<Rightarrow> uchar" where
  "fold_small_form c =
     (case map_of [(0x3083, 0x3084), (0x3085, 0x3086), (0x3087, 0x3088)] c of
        Some full \<Rightarrow> full
      | None \<Rightarrow> c)"

text \<open>
  The katakana spelling of a word written in hiragana: every hiragana letter (U+3041 to
  U+3096) and the two iteration marks (U+309D, U+309E) are replaced by the katakana
  character 0x60 above; the other characters have no katakana form and are kept. A word
  is within a-through-n when it holds none of the letters vu, small ka and small ke
  (U+3094 to U+3096) and neither iteration mark.
\<close>

definition katakana_letter :: "uchar \<Rightarrow> uchar" where
  "katakana_letter c =
     (if (0x3041 \<le> c \<and> c \<le> 0x3096) \<or> c = 0x309D \<or> c = 0x309E then c + 0x60 else c)"

definition katakana_spelling :: "ustring \<Rightarrow> ustring" where
  "katakana_spelling h = map katakana_letter h"

definition a_through_n :: "ustring \<Rightarrow> bool" where
  "a_through_n h =
     list_all (\<lambda>c. \<not> (0x3094 \<le> c \<and> c \<le> 0x3096) \<and> c \<noteq> 0x309D \<and> c \<noteq> 0x309E) h"

text \<open>The five rules of a player's move, in the order in which they are checked.\<close>

datatype rule = Continuity | KnownWord | NoRepeat | MustBeNoun | TerminalBan

fun violates :: "Game \<Rightarrow> ustring \<Rightarrow> rule \<Rightarrow> bool" where
  "violates g text Continuity = (text = [] \<or> hd text \<noteq> required_unit g)"
| "violates g text KnownWord = (text \<notin> set (map fst (known_words g)))"
| "violates g text NoRepeat =
     (case map_of (known_words g) text of
        None \<Rightarrow> False
      | Some w \<Rightarrow> w \<in> set (seen_words g))"
| "violates g text MustBeNoun =
     (case map_of (known_words g) text of
        None \<Rightarrow> False
      | Some w \<Rightarrow> \<not> is_noun w)"
| "violates g text TerminalBan = (text \<noteq> [] \<and> last text = HIRAGANA_LETTER_N)"

definition first_violation :: "Game \<Rightarrow> ustring \<Rightarrow> rule option" where
  "first_violation g text =
     find (violates g text) [Continuity, KnownWord, NoRepeat, MustBeNoun, TerminalBan]"

text \<open>
  The failure of each rule: the unknown word has an exception of its own, the other four
  are the invalid-word exception with the message of the rule.
\<close>

fun rule_error :: "Game \<Rightarrow> ustring \<Rightarrow> rule \<Rightarrow> error" where
  "rule_error g text Continuity = InvalidWordException (NotLastMora text (required_unit g))"
| "rule_error g text KnownWord = UnknownWordException (NotKnown text)"
| "rule_error g text NoRepeat = InvalidWordException (AlreadySeen text)"
| "rule_error g text MustBeNoun =
     InvalidWordException (NotNoun text (kanji (the (map_of (known_words g) text))))"
| "rule_error g text TerminalBan = InvalidWordException (EndsWithN text)"

text \<open>
  What every state of a game satisfies: the chain is not empty, its words have a
  reading, no word is in it twice, and every key of the index is the normalized reading
  of its word.
\<close>

definition game_invariant :: "Game \<Rightarrow> bool" where
  "game_invariant g =
     (seen_words g \<noteq> [] \<and>
      (\<forall>w \<in> set (seen_words g). kana w \<noteq> []) \<and>
      distinct (seen_words g) \<and>
      (\<forall>(k, w) \<in> set (known_words g). k = katakana_to_hiragana (kana w)))"

subsection \<open>Example games\<close>

definition asa :: GameWord where
  "asa = GameWord [] [0x3042, 0x3055] 1 True"

definition saru :: GameWord where
  "saru = GameWord [] [0x3055, 0x308B] 1 True"

definition rusu :: GameWord where
  "rusu = GameWord [] [0x308B, 0x3059] 1 True"

definition example_game :: Game where
  "example_game =
     \<lparr>words = [asa, saru, rusu],
      known_words = [([0x3042, 0x3055], asa), ([0x3055, 0x308B], saru), ([0x308B, 0x3059], rusu)],
      seen_words = [asa],
      player_score = 0\<rparr>"

text \<open>
  The same game after the player has answered \<open>saru\<close>, and after the engine has
  answered \<open>rusu\<close> to that.
\<close>

definition example_game1 :: Game where
  "example_game1 = example_game\<lparr>seen_words := [asa, saru], player_score := 1\<rparr>"

definition example_game2 :: Game where
  "example_game2 = example_game\<lparr>seen_words := [asa, saru, rusu], player_score := 1\<rparr>"

text \<open>The second word of this vocabulary is written in katakana.\<close>

definition saru_katakana :: GameWord where
  "saru_katakana = GameWord [] [0x30B5, 0x30EB] 1 True"

definition katakana_game :: Game where
  "katakana_game =
     \<lparr>words = [asa, saru_katakana],
      known_words = [([0x3042, 0x3055], asa), ([0x3055, 0x308B], saru_katakana)],
      seen_words = [asa],
      player_score = 0\<rparr>"

text \<open>
  A game in which the last played word ends in a small ya, and two words of the
  vocabulary start with the full-size ya.
\<close>

definition ao :: GameWord where
  "ao = GameWord [] [0x3042, 0x304A] 1 True"

definition ocha :: GameWord where
  "ocha = GameWord [] [0x304A, 0x3061, 0x3083] 1 True"

definition yama :: GameWord where
  "yama = GameWord [] [0x3084, 0x307E] 1 True"

definition yane :: GameWord where
  "yane = GameWord [] [0x3084, 0x306D] 1 True"

definition ocha_game :: Game where
  "ocha_game =
     \<lparr>words = [ao, ocha, yama, yane],
      known_words = [([0x3042, 0x304A], ao), ([0x304A, 0x3061, 0x3083], ocha),
                     ([0x3084, 0x307E], yama), ([0x3084, 0x306D], yane)],
      seen_words = [ao, ocha],
      player_score = 1\<rparr>"

text \<open>A vocabulary with a hiragana word that holds the letter vu (U+3094).\<close>

definition savu :: GameWord where
  "savu = GameWord [] [0x3055, 0x3094] 1 True"

definition savu_game :: Game where
  "savu_game =
     \<lparr>words = [asa, savu],
      known_words = [([0x3042, 0x3055], asa), ([0x3055, 0x3094], savu)],
      seen_words = [asa],
      player_score = 0\<rparr>"

text \<open>A vocabulary of one word that is not a noun.\<close>

definition neru :: GameWord where
  "neru = GameWord [] [0x306D, 0x308B] 1 False"

section \<open>Normalization\<close>

lemmas code_points =
  HIRAGANA_LETTER_SMALL_A_def HIRAGANA_DIGRAPH_YORI_def
  KATAKANA_HIRAGANA_DOUBLE_HYPHEN_def KATAKANA_DIGRAPH_KOTO_def
  KATAKANA_LETTER_SMALL_A_def KATAKANA_LETTER_N_def HIRAGANA_LETTER_N_def

lemma kana_char_cases:
  "kana_char c = (if 0x30A0 \<le> c \<and> c \<le> 0x30F3 then c - 0x60 else c)"
  by (simp add: kana_char_def is_katakana_def code_points)

lemma kana_char_idem: "kana_char (kana_char c) = kana_char c"
  unfolding kana_char_cases by (cases "12448 \<le> c \<and> c \<le> 12531") auto

text \<open>
  C8. Normalization is idempotent: normalizing a string twice gives the same string as
  normalizing it once, for every string.
\<close>

theorem katakana_to_hiragana_idempotent:
  "katakana_to_hiragana (katakana_to_hiragana x) = katakana_to_hiragana x"
  by (simp add: katakana_to_hiragana_def kana_char_idem)

text \<open>
  C7, as amended. The normalizer keeps the length of the string and works character by
  character: a character from KATAKANA LETTER SMALL A (U+30A1) to KATAKANA LETTER N
  (U+30F3), a range that holds the katakana small tsu and the voiced letters, becomes
  the hiragana character at the same offset from HIRAGANA LETTER SMALL A; a character
  below U+30A0 or above U+30F3 is left as it is. Nothing is said of U+30A0.
\<close>

theorem katakana_to_hiragana_by_offset:
  "length (katakana_to_hiragana text) = length text \<and>
   (\<forall>i < length text.
      (KATAKANA_LETTER_SMALL_A \<le> text ! i \<and> text ! i \<le> KATAKANA_LETTER_N \<longrightarrow>
         katakana_to_hiragana text ! i =
           HIRAGANA_LETTER_SMALL_A + (text ! i - KATAKANA_LETTER_SMALL_A)) \<and>
      (text ! i < KATAKANA_HIRAGANA_DOUBLE_HYPHEN \<or> KATAKANA_LETTER_N < text ! i \<longrightarrow>
         katakana_to_hiragana text ! i = text ! i))"
  by (simp add: katakana_to_hiragana_def kana_char_cases code_points)

text \<open>
  The string of KATAKANA LETTER SA, the long-vowel mark U+30FC and HIRAGANA LETTER A:
  the first character is mapped, the other two are kept.
\<close>

theorem katakana_to_hiragana_by_offset_witness:
  "katakana_to_hiragana [0x30B5, 0x30FC, 0x3042] ! 0 = 0x3055 \<and>
   katakana_to_hiragana [0x30B5, 0x30FC, 0x3042] ! 1 = 0x30FC \<and>
   katakana_to_hiragana [0x30B5, 0x30FC, 0x3042] ! 2 = 0x3042"
  using katakana_to_hiragana_by_offset [of "[0x30B5, 0x30FC, 0x3042]"]
  by (simp add: code_points All_less_Suc2 numeral_2_eq_2)

text \<open>
  C7 as stated fails: KATAKANA LETTER SMALL TU (U+30C3) lies between small a and n and
  is mapped to HIRAGANA LETTER SMALL TU (U+3063), not left unchanged.
\<close>

theorem small_tsu_is_mapped:
  "katakana_to_hiragana [0x30C3] = [0x3063] \<and> katakana_to_hiragana [0x30C3] \<noteq> [0x30C3]"
  by (simp add: katakana_to_hiragana_def kana_char_cases)

text \<open>
  The lower bound of the mapped range is the first code point of the katakana block, not
  small a: KATAKANA-HIRAGANA DOUBLE HYPHEN (U+30A0) is mapped to U+3040, although the
  comment of the source says that only a to n are changed.
\<close>

lemma double_hyphen_is_mapped: "katakana_to_hiragana [0x30A0] = [0x3040]"
  by (simp add: katakana_to_hiragana_def kana_char_cases)

section \<open>Construction\<close>

lemma set_update_subset: "set (AList.update k v d) \<subseteq> insert (k, v) (set d)"
  by (induction d) auto

lemma build_known_words_keys:
  "\<forall>(k, w) \<in> set d. k = katakana_to_hiragana (kana w) \<Longrightarrow>
   \<forall>(k, w) \<in> set (build_known_words m d ws). k = katakana_to_hiragana (kana w)"
proof (induction ws arbitrary: d)
  case Nil
  then show ?case by simp
next
  case (Cons w ws)
  have "\<forall>(k, w') \<in> set (AList.update (katakana_to_hiragana (kana w)) w d).
          k = katakana_to_hiragana (kana w')"
    using Cons.prems set_update_subset [of "katakana_to_hiragana (kana w)" w d] by auto
  with Cons show ?case by simp
qed

lemma pick_initial_result:
  assumes "pick_initial kw rnd i = Some (Inr w)"
  shows "w \<in> set (dict_values kw) \<and> is_noun w \<and> kana w \<noteq> [] \<and> last (kana w) \<noteq> HIRAGANA_LETTER_N"
proof -
  let ?P = "\<lambda>kw (rnd :: nat \<Rightarrow> nat) (i :: nat) (y :: error + GameWord).
      \<forall>w. y = Inr w \<longrightarrow> w \<in> set (dict_values kw) \<and> is_noun w \<and> kana w \<noteq> [] \<and>
              last (kana w) \<noteq> HIRAGANA_LETTER_N"
  have "?P kw rnd i (Inr w)"
  proof (rule pick_initial.raw_induct [where P = ?P, OF _ assms])
    fix pick kw rnd i y
    assume IH: "\<And>kw rnd i y. pick kw rnd i = Some y \<Longrightarrow> ?P kw rnd i y"
      and step: "(case random_choice (dict_keys kw) (rnd i) of
        Inl e \<Rightarrow> Some (Inl e)
      | Inr key \<Rightarrow>
          (case dict_getitem kw key of
             Inl e \<Rightarrow> Some (Inl e)
           | Inr first \<Rightarrow>
               if is_noun first
               then (case py_last (kana first) of
                       Inl e \<Rightarrow> Some (Inl e)
                     | Inr c \<Rightarrow>
                         if c \<noteq> HIRAGANA_LETTER_N then Some (Inr first)
                         else pick kw rnd (Suc i))
               else pick kw rnd (Suc i))) = Some y"
    show "?P kw rnd i y"
      using step IH [of kw rnd "Suc i" y]
      by (auto simp: dict_getitem_def py_last_def dict_values_def
               split: sum.splits option.splits if_splits
               dest!: map_of_SomeD intro: rev_image_eqI)
  qed
  then show ?thesis by blast
qed

lemma random_choice_keys:
  "kw \<noteq> [] \<Longrightarrow> \<exists>key w. random_choice (dict_keys kw) r = Inr key \<and>
       dict_getitem kw key = Inr w \<and> w \<in> set (dict_values kw)"
proof -
  assume ne: "kw \<noteq> []"
  let ?key = "dict_keys kw ! (r mod length (dict_keys kw))"
  have len: "r mod length (dict_keys kw) < length (dict_keys kw)"
    using ne by (simp add: dict_keys_def)
  then have "?key \<in> fst ` set kw"
    using nth_mem [OF len] by (simp add: dict_keys_def)
  then obtain w where w: "map_of kw ?key = Some w"
    by (metis domD dom_map_of_conv_image_fst)
  then have "w \<in> set (dict_values kw)"
    by (auto simp: dict_values_def dest!: map_of_SomeD intro: rev_image_eqI)
  with w ne show ?thesis
    by (simp add: random_choice_def dict_getitem_def dict_keys_def)
qed

lemma pick_initial_diverges:
  assumes ne: "kw \<noteq> []"
    and none: "\<forall>w \<in> set (dict_values kw). \<not> is_noun w \<or> (kana w \<noteq> [] \<and> last (kana w) = HIRAGANA_LETTER_N)"
  shows "pick_initial kw rnd i = None"
proof (rule ccontr)
  assume "pick_initial kw rnd i \<noteq> None"
  then obtain y where y: "pick_initial kw rnd i = Some y" by blast
  let ?bad = "\<lambda>kw. kw \<noteq> [] \<and> (\<forall>w \<in> set (dict_values kw).
      \<not> is_noun w \<or> (kana w \<noteq> [] \<and> last (kana w) = HIRAGANA_LETTER_N))"
  let ?P = "\<lambda>kw (rnd :: nat \<Rightarrow> nat) (i :: nat) (y :: error + GameWord). \<not> ?bad kw"
  have "?P kw rnd i y"
  proof (rule pick_initial.raw_induct [where P = ?P, OF _ y])
    fix pick kw rnd i y
    assume IH: "\<And>kw rnd i y. pick kw rnd i = Some y \<Longrightarrow> ?P kw rnd i y"
      and step: "(case random_choice (dict_keys kw) (rnd i) of
        Inl e \<Rightarrow> Some (Inl e)
      | Inr key \<Rightarrow>
          (case dict_getitem kw key of
             Inl e \<Rightarrow> Some (Inl e)
           | Inr first \<Rightarrow>
               if is_noun first
               then (case py_last (kana first) of
                       Inl e \<Rightarrow> Some (Inl e)
                     | Inr c \<Rightarrow>
                         if c \<noteq> HIRAGANA_LETTER_N then Some (Inr first)
                         else pick kw rnd (Suc i))
               else pick kw rnd (Suc i))) = Some y"
    show "?P kw rnd i y"
    proof
      assume bad: "?bad kw"
      then obtain key w where kw: "random_choice (dict_keys kw) (rnd i) = Inr key"
        "dict_getitem kw key = Inr w" "w \<in> set (dict_values kw)"
        using random_choice_keys [of kw "rnd i"] by blast
      with bad have "\<not> is_noun w \<or> (kana w \<noteq> [] \<and> last (kana w) = HIRAGANA_LETTER_N)"
        by blast
      with step kw have "pick kw rnd (Suc i) = Some y"
        by (auto simp: py_last_def split: if_splits)
      from IH [OF this] bad show False by blast
    qed
  qed
  with ne none show False by blast
qed

text \<open>
  C6 fails on the code. For the vocabulary of the single word \<open>neru\<close>, which is not a
  noun, the constructor never returns, whatever the random source draws: every draw
  is that word and the loop rejects it.
\<close>

theorem init_never_returns: "Game_init [neru] None rnd = None"
proof -
  have kw: "build_known_words (resolve_max_rank [neru] None) [] [neru] = [([0x306D, 0x308B], neru)]"
    by (simp add: resolve_max_rank_def neru_def katakana_to_hiragana_def kana_char_cases)
  have "pick_initial [([0x306D, 0x308B], neru)] rnd 0 = None"
    by (rule pick_initial_diverges) (simp_all add: dict_values_def neru_def)
  with kw show ?thesis by (simp add: Game_init_def)
qed

section \<open>The invariant of the game states\<close>

lemma islice_filter_take: "islice_filter n p xs = take n (filter p xs)"
  by (induction n p xs rule: islice_filter.induct) simp_all

lemma last_mora_required_unit:
  "game_invariant g \<Longrightarrow> last_mora g = Inr (required_unit g)"
  by (simp add: game_invariant_def last_mora_def py_last_def required_unit_def)

lemma candidate_eligible: "candidate g (required_unit g) w = eligible g w"
  by (cases "kana w") (simp_all add: candidate_def eligible_def startswith_def endswith_def)

lemma candidates_sampled:
  "islice_filter 10 (candidate g (required_unit g)) (dict_values (known_words g)) =
   sampled_candidates g"
proof -
  have "candidate g (required_unit g) = eligible g"
    by (rule ext) (rule candidate_eligible)
  then show ?thesis
    by (simp add: islice_filter_take sampled_candidates_def dict_values_def)
qed

lemma Game_init_result:
  assumes "Game_init ws max_rank rnd = Some (Inr g)"
  shows "\<exists>first. g = \<lparr>words = ws,
                       known_words = build_known_words (resolve_max_rank ws max_rank) [] ws,
                       seen_words = [first], player_score = 0\<rparr> \<and>
                 first \<in> set (dict_values (known_words g)) \<and>
                 is_noun first \<and> kana first \<noteq> [] \<and> last (kana first) \<noteq> HIRAGANA_LETTER_N"
proof -
  let ?kw = "build_known_words (resolve_max_rank ws max_rank) [] ws"
  from assms obtain first where
    p: "pick_initial ?kw rnd 0 = Some (Inr first)"
    and g: "g = \<lparr>words = ws, known_words = ?kw, seen_words = [first], player_score = 0\<rparr>"
    by (auto simp: Game_init_def update_seen_def split: if_splits option.splits sum.splits)
  from pick_initial_result [OF p] g show ?thesis by simp
qed

lemma Game_init_invariant:
  assumes "Game_init ws max_rank rnd = Some (Inr g)"
  shows "game_invariant g"
proof -
  from Game_init_result [OF assms] obtain first where
    g: "g = \<lparr>words = ws,
             known_words = build_known_words (resolve_max_rank ws max_rank) [] ws,
             seen_words = [first], player_score = 0\<rparr>"
    and f: "kana first \<noteq> []"
    by blast
  have "\<forall>(k, w) \<in> set (build_known_words (resolve_max_rank ws max_rank) [] ws).
          k = katakana_to_hiragana (kana w)"
    by (rule build_known_words_keys) simp
  with g f show ?thesis by (simp add: game_invariant_def)
qed

lemma next_word_cases:
  assumes inv: "game_invariant g"
  shows "(length (seen_words g) = 1 \<longrightarrow> next_word r g = (Inr (seen_words g ! 0), g)) \<and>
         (length (seen_words g) \<noteq> 1 \<and> sampled_candidates g = [] \<longrightarrow>
            next_word r g = (Inl (InvalidWordException GiveUp), g)) \<and>
         (length (seen_words g) \<noteq> 1 \<and> sampled_candidates g \<noteq> [] \<longrightarrow>
            next_word r g =
              (Inr (sampled_candidates g ! (r mod length (sampled_candidates g))),
               update_seen (sampled_candidates g ! (r mod length (sampled_candidates g))) g))"
  by (simp add: next_word_def last_mora_required_unit [OF inv] candidates_sampled
                random_choice_def Let_def)

lemma sampled_candidates_eligible:
  "w \<in> set (sampled_candidates g) \<Longrightarrow> eligible g w \<and> w \<in> set (dict_values (known_words g))"
  by (auto simp: sampled_candidates_def dict_values_def dest!: in_set_takeD)

lemma next_word_invariant:
  assumes inv: "game_invariant g" and step: "next_word r g = (res, g')"
  shows "game_invariant g'"
proof (cases "length (seen_words g) \<noteq> 1 \<and> sampled_candidates g \<noteq> []")
  case False
  with next_word_cases [OF inv, of r] step have "g' = g" by auto
  with inv show ?thesis by simp
next
  case True
  let ?w = "sampled_candidates g ! (r mod length (sampled_candidates g))"
  from True have "?w \<in> set (sampled_candidates g)" by simp
  then have e: "eligible g ?w" by (simp add: sampled_candidates_eligible)
  from True next_word_cases [OF inv, of r] step have "g' = update_seen ?w g" by auto
  with inv e show ?thesis
    by (auto simp: game_invariant_def update_seen_def eligible_def)
qed

lemma validate_accepts:
  assumes "validate g text = Inr u"
  shows "\<exists>mora w. last_mora g = Inr mora \<and> text \<noteq> [] \<and> hd text = mora \<and>
           map_of (known_words g) text = Some w \<and> w \<notin> set (seen_words g) \<and>
           is_noun w \<and> \<not> endswith text HIRAGANA_LETTER_N"
  using assms
  by (auto simp: validate_def py_first_def dict_contains_def dict_getitem_def
           split: sum.splits list.splits if_splits option.splits)

lemma send_word_cases:
  "(\<forall>e. validate g (katakana_to_hiragana raw) = Inl e \<longrightarrow> send_word raw g = (Inl e, g)) \<and>
   (\<forall>u. validate g (katakana_to_hiragana raw) = Inr u \<longrightarrow>
      (\<exists>w. map_of (known_words g) (katakana_to_hiragana raw) = Some w \<and>
           send_word raw g =
             (Inr w, g\<lparr>seen_words := seen_words g @ [w], player_score := player_score g + 1\<rparr>)))"
proof (intro conjI allI impI)
  fix e assume "validate g (katakana_to_hiragana raw) = Inl e"
  then show "send_word raw g = (Inl e, g)" by (simp add: send_word_def)
next
  fix u assume v: "validate g (katakana_to_hiragana raw) = Inr u"
  from validate_accepts [OF v] obtain w where
    "map_of (known_words g) (katakana_to_hiragana raw) = Some w" by blast
  with v show "\<exists>w. map_of (known_words g) (katakana_to_hiragana raw) = Some w \<and>
           send_word raw g =
             (Inr w, g\<lparr>seen_words := seen_words g @ [w], player_score := player_score g + 1\<rparr>)"
    by (simp add: send_word_def dict_getitem_def update_seen_def)
qed

lemma send_word_invariant:
  assumes inv: "game_invariant g" and step: "send_word raw g = (res, g')"
  shows "game_invariant g'"
proof (cases "validate g (katakana_to_hiragana raw)")
  case (Inl e)
  with send_word_cases [of g raw] step have "g' = g" by auto
  with inv show ?thesis by simp
next
  case (Inr u)
  let ?text = "katakana_to_hiragana raw"
  from validate_accepts [OF Inr] obtain w where
    t: "?text \<noteq> []" and w: "map_of (known_words g) ?text = Some w"
    and new: "w \<notin> set (seen_words g)" by blast
  from w have "(?text, w) \<in> set (known_words g)" by (rule map_of_SomeD)
  with inv have "?text = katakana_to_hiragana (kana w)"
    by (auto simp: game_invariant_def)
  with t have k: "kana w \<noteq> []" by (auto simp: katakana_to_hiragana_def)
  from send_word_cases [of g raw] Inr w step
  have "g' = g\<lparr>seen_words := seen_words g @ [w], player_score := player_score g + 1\<rparr>"
    by auto
  with inv new k show ?thesis by (auto simp: game_invariant_def)
qed

lemma reachable_invariant: "reachable g \<Longrightarrow> game_invariant g"
proof (induction rule: reachable.induct)
  case (reach_init ws max_rank rnd g)
  then show ?case by (rule Game_init_invariant)
next
  case (reach_next g r res g')
  then show ?case by (blast intro: next_word_invariant)
next
  case (reach_send g raw res g')
  then show ?case by (blast intro: send_word_invariant)
qed

lemma next_word_known_words: "next_word r g = (res, g') \<Longrightarrow> known_words g' = known_words g"
  by (auto simp: next_word_def Let_def update_seen_def random_choice_def
           split: if_splits sum.splits)

lemma send_word_known_words: "send_word raw g = (res, g') \<Longrightarrow> known_words g' = known_words g"
  by (auto simp: send_word_def Let_def update_seen_def split: sum.splits)

lemma build_known_words_distinct:
  "distinct (map fst d) \<Longrightarrow> distinct (map fst (build_known_words m d ws))"
  by (induction ws arbitrary: d) (simp_all add: distinct_update)

lemma reachable_distinct_keys: "reachable g \<Longrightarrow> distinct (map fst (known_words g))"
proof (induction rule: reachable.induct)
  case (reach_init ws max_rank rnd g)
  from Game_init_result [OF reach_init]
  have "known_words g = build_known_words (resolve_max_rank ws max_rank) [] ws"
    by (metis Game.select_convs(2))
  then show ?case by (simp add: build_known_words_distinct)
next
  case (reach_next g r res g')
  then show ?case by (simp add: next_word_known_words)
next
  case (reach_send g raw res g')
  then show ?case by (simp add: send_word_known_words)
qed

lemma reachable_distinct_values:
  assumes "reachable g"
  shows "distinct (map snd (known_words g))"
proof -
  from reachable_distinct_keys [OF assms] have d: "distinct (known_words g)"
    by (simp add: distinct_map)
  have "inj_on snd (set (known_words g))"
  proof (rule inj_onI)
    fix x y assume x: "x \<in> set (known_words g)" and y: "y \<in> set (known_words g)"
      and e: "snd x = snd y"
    from reachable_invariant [OF assms] x y
    have "fst x = katakana_to_hiragana (kana (snd x))" "fst y = katakana_to_hiragana (kana (snd y))"
      by (auto simp: game_invariant_def)
    with e show "x = y" by (simp add: prod_eq_iff)
  qed
  with d show ?thesis by (simp add: distinct_map)
qed

lemma sampled_candidates_distinct: "reachable g \<Longrightarrow> distinct (sampled_candidates g)"
  by (simp add: sampled_candidates_def reachable_distinct_values)

section \<open>The example game, evaluated\<close>

lemma example_game_init:
  "Game_init [asa, saru, rusu] None (\<lambda>_. 0) = Some (Inr example_game)"
proof -
  have kw: "build_known_words (resolve_max_rank [asa, saru, rusu] None) [] [asa, saru, rusu]
      = [([0x3042, 0x3055], asa), ([0x3055, 0x308B], saru), ([0x308B, 0x3059], rusu)]"
    by (simp add: resolve_max_rank_def asa_def saru_def rusu_def katakana_to_hiragana_def
                  kana_char_cases)
  have "pick_initial [([0x3042, 0x3055], asa), ([0x3055, 0x308B], saru), ([0x308B, 0x3059], rusu)]
          (\<lambda>_. 0) 0 = Some (Inr asa)"
    by (subst pick_initial.simps)
       (simp add: random_choice_def dict_keys_def dict_getitem_def py_last_def asa_def
                  HIRAGANA_LETTER_N_def)
  with kw show ?thesis
    by (simp add: Game_init_def update_seen_def example_game_def)
qed

lemma example_game_reachable: "reachable example_game"
  using example_game_init by (rule reach_init)

lemma example_send_saru:
  "send_word [0x3055, 0x308B] example_game =
     (Inr saru, example_game\<lparr>seen_words := [asa, saru], player_score := 1\<rparr>)"
  by (simp add: send_word_def Let_def validate_def last_mora_def py_last_def py_first_def
                dict_contains_def dict_getitem_def endswith_def update_seen_def
                katakana_to_hiragana_def kana_char_cases small_to_big_def
                example_game_def asa_def saru_def rusu_def HIRAGANA_LETTER_N_def)

lemma example_game1_reachable: "reachable example_game1"
  unfolding example_game1_def
  by (rule reach_send [OF example_game_reachable example_send_saru])

lemma example_sampled1: "sampled_candidates example_game1 = [rusu]"
  by (simp add: sampled_candidates_def eligible_def required_unit_def small_to_big_def
                example_game1_def example_game_def asa_def saru_def rusu_def HIRAGANA_LETTER_N_def)

lemma example_next1: "next_word r example_game1 = (Inr rusu, example_game2)"
  using next_word_cases [OF reachable_invariant [OF example_game1_reachable], of r]
  by (simp add: example_sampled1 update_seen_def)
     (simp add: example_game1_def example_game2_def example_game_def)

lemma example_game2_reachable: "reachable example_game2"
  by (rule reach_next [OF example_game1_reachable example_next1])

lemma example_sampled2: "sampled_candidates example_game2 = []"
  by (simp add: sampled_candidates_def eligible_def required_unit_def small_to_big_def
                example_game2_def example_game_def asa_def saru_def rusu_def HIRAGANA_LETTER_N_def)

section \<open>No word twice in the chain\<close>

text \<open>
  C4. No-repeat invariant: in every state of a game, reached by any sequence of
  \<open>next_word\<close> and \<open>send_word\<close> calls after construction, no word is twice in
  the played chain.
\<close>

theorem no_repeat_invariant: "reachable g \<Longrightarrow> distinct (seen_words g)"
  using reachable_invariant [of g] by (simp add: game_invariant_def)

text \<open>The chain of three words of the example game is reachable and has no repeat.\<close>

theorem no_repeat_invariant_witness:
  "reachable example_game2 \<and> seen_words example_game2 = [asa, saru, rusu] \<and>
   distinct (seen_words example_game2)"
  using no_repeat_invariant [OF example_game2_reachable] example_game2_reachable
  by (simp add: example_game2_def example_game_def)

section \<open>The player's move\<close>

text \<open>
  C10. For the empty input \<open>send_word\<close> never returns a word: in every state, reachable
  or not, the call fails with IndexError (the chain, the last reading or the input has no
  character to read) and leaves the chain and the score as they were.
\<close>

theorem send_word_empty: "send_word [] g = (Inl IndexError, g)"
  by (auto simp: send_word_def validate_def katakana_to_hiragana_def py_first_def
                 last_mora_def py_last_def split: sum.splits)

text \<open>The empty input in the example game with two played words and score 1.\<close>

theorem send_word_empty_witness:
  "send_word [] example_game1 = (Inl IndexError, example_game1) \<and>
   seen_words example_game1 = [asa, saru] \<and> player_score example_game1 = 1"
  using send_word_empty [of example_game1]
  by (simp add: example_game1_def example_game_def)

text \<open>
  C5. \<open>send_word\<close> is atomic. When the validation of the normalized input succeeds,
  the call returns the word the index holds for it, the score is one more, the word is
  appended to the chain and nothing else changes. When the validation fails, the call
  fails with that failure and the state is the one it found; a call that fails leaves
  the state unchanged.
\<close>

theorem send_word_atomic:
  "(\<forall>u. validate g (katakana_to_hiragana raw) = Inr u \<longrightarrow>
      (\<exists>w. dict_getitem (known_words g) (katakana_to_hiragana raw) = Inr w \<and>
           fst (send_word raw g) = Inr w \<and>
           player_score (snd (send_word raw g)) = player_score g + 1 \<and>
           seen_words (snd (send_word raw g)) = seen_words g @ [w] \<and>
           known_words (snd (send_word raw g)) = known_words g \<and>
           words (snd (send_word raw g)) = words g)) \<and>
   (\<forall>e. validate g (katakana_to_hiragana raw) = Inl e \<longrightarrow> send_word raw g = (Inl e, g)) \<and>
   (\<forall>e. fst (send_word raw g) = Inl e \<longrightarrow> snd (send_word raw g) = g)"
proof (intro conjI allI impI)
  fix u assume "validate g (katakana_to_hiragana raw) = Inr u"
  with send_word_cases [of g raw] obtain w where
    "map_of (known_words g) (katakana_to_hiragana raw) = Some w"
    "send_word raw g =
       (Inr w, g\<lparr>seen_words := seen_words g @ [w], player_score := player_score g + 1\<rparr>)"
    by blast
  then show "\<exists>w. dict_getitem (known_words g) (katakana_to_hiragana raw) = Inr w \<and>
           fst (send_word raw g) = Inr w \<and>
           player_score (snd (send_word raw g)) = player_score g + 1 \<and>
           seen_words (snd (send_word raw g)) = seen_words g @ [w] \<and>
           known_words (snd (send_word raw g)) = known_words g \<and>
           words (snd (send_word raw g)) = words g"
    by (simp add: dict_getitem_def)
next
  fix e assume "validate g (katakana_to_hiragana raw) = Inl e"
  with send_word_cases [of g raw] show "send_word raw g = (Inl e, g)" by blast
next
  fix e assume f: "fst (send_word raw g) = Inl e"
  show "snd (send_word raw g) = g"
  proof (cases "validate g (katakana_to_hiragana raw)")
    case (Inl e')
    with send_word_cases [of g raw] show ?thesis by simp
  next
    case (Inr u)
    with send_word_cases [of g raw] f show ?thesis by auto
  qed
qed

lemma example_validate_saru: "validate example_game (katakana_to_hiragana [0x3055, 0x308B]) = Inr ()"
  by (simp add: validate_def last_mora_def py_last_def py_first_def
                dict_contains_def dict_getitem_def endswith_def
                katakana_to_hiragana_def kana_char_cases small_to_big_def
                example_game_def asa_def saru_def rusu_def HIRAGANA_LETTER_N_def)

lemma example_validate_rusu:
  "validate example_game (katakana_to_hiragana [0x308B, 0x3059]) =
     Inl (InvalidWordException (NotLastMora [0x308B, 0x3059] 0x3055))"
  by (simp add: validate_def last_mora_def py_last_def py_first_def
                katakana_to_hiragana_def kana_char_cases small_to_big_def
                example_game_def asa_def)

text \<open>
  In the example game \<open>saru\<close> is accepted, with score 1 and a chain of two words;
  \<open>rusu\<close> does not start with the last mora and the state stays.
\<close>

theorem send_word_atomic_witness:
  "validate example_game (katakana_to_hiragana [0x3055, 0x308B]) = Inr () \<and>
   fst (send_word [0x3055, 0x308B] example_game) = Inr saru \<and>
   player_score (snd (send_word [0x3055, 0x308B] example_game)) = 1 \<and>
   seen_words (snd (send_word [0x3055, 0x308B] example_game)) = [asa, saru] \<and>
   validate example_game (katakana_to_hiragana [0x308B, 0x3059]) =
     Inl (InvalidWordException (NotLastMora [0x308B, 0x3059] 0x3055)) \<and>
   send_word [0x308B, 0x3059] example_game =
     (Inl (InvalidWordException (NotLastMora [0x308B, 0x3059] 0x3055)), example_game)"
proof -
  have d: "dict_getitem (known_words example_game) (katakana_to_hiragana [0x3055, 0x308B]) = Inr saru"
    by (simp add: dict_getitem_def katakana_to_hiragana_def kana_char_cases example_game_def)
  have s: "player_score example_game = 0" "seen_words example_game = [asa]"
    by (simp_all add: example_game_def)
  from send_word_atomic [of example_game "[0x3055, 0x308B]"] example_validate_saru d s
  have "fst (send_word [0x3055, 0x308B] example_game) = Inr saru \<and>
        player_score (snd (send_word [0x3055, 0x308B] example_game)) = 1 \<and>
        seen_words (snd (send_word [0x3055, 0x308B] example_game)) = [asa, saru]"
    by auto
  moreover from send_word_atomic [of example_game "[0x308B, 0x3059]"] example_validate_rusu
  have "send_word [0x308B, 0x3059] example_game =
     (Inl (InvalidWordException (NotLastMora [0x308B, 0x3059] 0x3055)), example_game)"
    by blast
  ultimately show ?thesis using example_validate_saru example_validate_rusu by blast
qed

lemma kana_char_katakana_letter:
  assumes "\<not> (0x3094 \<le> c \<and> c \<le> 0x3096) \<and> c \<noteq> 0x309D \<and> c \<noteq> 0x309E"
  shows "kana_char (katakana_letter c) = kana_char c"
proof (cases "0x3041 \<le> c \<and> c \<le> 0x3093")
  case True
  then show ?thesis by (simp add: kana_char_cases katakana_letter_def)
next
  case False
  with assms have "katakana_letter c = c" by (auto simp: katakana_letter_def)
  then show ?thesis by simp
qed

lemma katakana_spelling_normalized:
  assumes "a_through_n h"
  shows "katakana_to_hiragana (katakana_spelling h) = katakana_to_hiragana h"
proof -
  from assms have "\<forall>c \<in> set h. kana_char (katakana_letter c) = kana_char c"
    by (simp add: a_through_n_def list_all_iff kana_char_katakana_letter)
  then show ?thesis
    by (simp add: katakana_to_hiragana_def katakana_spelling_def)
qed

text \<open>
  C9, as amended. Script-insensitive submission: in every reachable state and for every
  key of the vocabulary index that is within a-through-n, submitting the katakana
  spelling of the key gives the same result (the same word or the same failure) and
  the same state as submitting the key itself.
\<close>

theorem send_word_katakana_spelling:
  assumes "reachable g"
    and "h \<in> set (dict_keys (known_words g))"
    and "a_through_n h"
  shows "send_word (katakana_spelling h) g = send_word h g"
  using katakana_spelling_normalized [OF assms(3)] by (simp add: send_word_def)

text \<open>The katakana spelling of \<open>saru\<close> in the example game.\<close>

theorem send_word_katakana_spelling_witness:
  "reachable example_game \<and>
   [0x3055, 0x308B] \<in> set (dict_keys (known_words example_game)) \<and>
   a_through_n [0x3055, 0x308B] \<and>
   katakana_spelling [0x3055, 0x308B] = [0x30B5, 0x30EB] \<and>
   send_word [0x30B5, 0x30EB] example_game = send_word [0x3055, 0x308B] example_game \<and>
   send_word [0x30B5, 0x30EB] example_game =
     (Inr saru, example_game\<lparr>seen_words := [asa, saru], player_score := 1\<rparr>)"
proof -
  have k: "[0x3055, 0x308B] \<in> set (dict_keys (known_words example_game))"
    by (simp add: dict_keys_def example_game_def)
  have a: "a_through_n [0x3055, 0x308B]"
    by (simp add: a_through_n_def)
  have s: "katakana_spelling [0x3055, 0x308B] = [0x30B5, 0x30EB]"
    by (simp add: katakana_spelling_def katakana_letter_def)
  from send_word_katakana_spelling [OF example_game_reachable k a]
  show ?thesis using example_game_reachable k a s example_send_saru by simp
qed

lemma savu_game_init:
  "Game_init [asa, savu] None (\<lambda>_. 0) = Some (Inr savu_game)"
proof -
  have kw: "build_known_words (resolve_max_rank [asa, savu] None) [] [asa, savu]
      = [([0x3042, 0x3055], asa), ([0x3055, 0x3094], savu)]"
    by (simp add: resolve_max_rank_def asa_def savu_def katakana_to_hiragana_def
                  kana_char_cases)
  have "pick_initial [([0x3042, 0x3055], asa), ([0x3055, 0x3094], savu)]
          (\<lambda>_. 0) 0 = Some (Inr asa)"
    by (subst pick_initial.simps)
       (simp add: random_choice_def dict_keys_def dict_getitem_def py_last_def asa_def
                  HIRAGANA_LETTER_N_def)
  with kw show ?thesis
    by (simp add: Game_init_def update_seen_def savu_game_def)
qed

text \<open>
  C9 as stated fails: the vocabulary knows the hiragana word of the letters sa and vu,
  which is accepted after \<open>asa\<close>; its katakana spelling holds KATAKANA LETTER VU
  (U+30F4), which lies after n and is not mapped, so the normalized text is not a key
  and the call fails with the unknown-word exception.
\<close>

theorem katakana_vu_is_unknown:
  "reachable savu_game \<and>
   [0x3055, 0x3094] \<in> set (dict_keys (known_words savu_game)) \<and>
   katakana_spelling [0x3055, 0x3094] = [0x30B5, 0x30F4] \<and>
   send_word [0x3055, 0x3094] savu_game =
     (Inr savu, savu_game\<lparr>seen_words := [asa, savu], player_score := 1\<rparr>) \<and>
   send_word [0x30B5, 0x30F4] savu_game =
     (Inl (UnknownWordException (NotKnown [0x3055, 0x30F4])), savu_game)"
proof -
  have r: "reachable savu_game"
    using savu_game_init by (rule reach_init)
  have k: "[0x3055, 0x3094] \<in> set (dict_keys (known_words savu_game))"
    by (simp add: dict_keys_def savu_game_def)
  have s: "katakana_spelling [0x3055, 0x3094] = [0x30B5, 0x30F4]"
    by (simp add: katakana_spelling_def katakana_letter_def)
  have h: "send_word [0x3055, 0x3094] savu_game =
     (Inr savu, savu_game\<lparr>seen_words := [asa, savu], player_score := 1\<rparr>)"
    by (simp add: send_word_def Let_def validate_def last_mora_def py_last_def py_first_def
                dict_contains_def dict_getitem_def endswith_def update_seen_def
                katakana_to_hiragana_def kana_char_cases small_to_big_def
                savu_game_def asa_def savu_def HIRAGANA_LETTER_N_def)
  have c: "send_word [0x30B5, 0x30F4] savu_game =
     (Inl (UnknownWordException (NotKnown [0x3055, 0x30F4])), savu_game)"
    by (simp add: send_word_def Let_def validate_def last_mora_def py_last_def py_first_def
                dict_contains_def
                katakana_to_hiragana_def kana_char_cases small_to_big_def
                savu_game_def asa_def)
  from r k s h c show ?thesis by simp
qed

lemma py_first_hd: "xs \<noteq> [] \<Longrightarrow> py_first xs = Inr (hd xs)"
  by (cases xs) (simp_all add: py_first_def)

lemma validate_first_violation:
  assumes inv: "game_invariant g" and ne: "text \<noteq> []"
  shows "validate g text =
           (case first_violation g text of
              Some r \<Rightarrow> Inl (rule_error g text r)
            | None \<Rightarrow> Inr ())"
proof (cases "map_of (known_words g) text")
  case None
  then have "text \<notin> fst ` set (known_words g)" by (simp add: map_of_eq_None_iff)
  with None ne show ?thesis
    by (simp add: validate_def last_mora_required_unit [OF inv] first_violation_def
                  py_first_hd dict_contains_def)
next
  case (Some w)
  then have "text \<in> fst ` set (known_words g)"
    by (metis map_of_eq_None_iff option.distinct(1))
  with Some ne show ?thesis
    by (simp add: validate_def last_mora_required_unit [OF inv] first_violation_def
                  py_first_hd dict_contains_def dict_getitem_def endswith_def)
qed

text \<open>
  C1, as amended. For every reachable state and every input that is not empty,
  \<open>send_word\<close> checks the normalized input in the order continuity, known word, no
  repeat, noun, terminal unit: it fails with the failure of the first rule the input
  violates (the unknown-word exception for the second rule, the invalid-word exception
  with the rule's message for the others) and an unchanged state, and it returns a word
  when no rule is violated.
\<close>

theorem send_word_first_violation:
  assumes "reachable g" and "raw \<noteq> []"
  shows "(\<forall>r. first_violation g (katakana_to_hiragana raw) = Some r \<longrightarrow>
            send_word raw g = (Inl (rule_error g (katakana_to_hiragana raw) r), g)) \<and>
         (first_violation g (katakana_to_hiragana raw) = None \<longrightarrow>
            (\<exists>w. fst (send_word raw g) = Inr w))"
proof -
  from assms(2) have ne: "katakana_to_hiragana raw \<noteq> []"
    by (simp add: katakana_to_hiragana_def)
  note v = validate_first_violation [OF reachable_invariant [OF assms(1)] ne]
  show ?thesis
  proof (intro conjI allI impI)
    fix r assume "first_violation g (katakana_to_hiragana raw) = Some r"
    with v have "validate g (katakana_to_hiragana raw) =
                   Inl (rule_error g (katakana_to_hiragana raw) r)" by simp
    with send_word_cases [of g raw]
    show "send_word raw g = (Inl (rule_error g (katakana_to_hiragana raw) r), g)" by blast
  next
    assume "first_violation g (katakana_to_hiragana raw) = None"
    with v have "validate g (katakana_to_hiragana raw) = Inr ()" by simp
    with send_word_cases [of g raw] show "\<exists>w. fst (send_word raw g) = Inr w" by force
  qed
qed

lemma example_violation_rusu:
  "first_violation example_game (katakana_to_hiragana [0x308B, 0x3059]) = Some Continuity"
  by (simp add: first_violation_def required_unit_def small_to_big_def
                katakana_to_hiragana_def kana_char_cases example_game_def asa_def)

lemma example_violation_saka:
  "first_violation example_game (katakana_to_hiragana [0x3055, 0x304B]) = Some KnownWord"
  by (simp add: first_violation_def required_unit_def small_to_big_def
                katakana_to_hiragana_def kana_char_cases example_game_def asa_def)

lemma example_violation_none:
  "first_violation example_game (katakana_to_hiragana [0x3055, 0x308B]) = None"
  by (simp add: first_violation_def required_unit_def small_to_big_def
                katakana_to_hiragana_def kana_char_cases example_game_def asa_def saru_def
                HIRAGANA_LETTER_N_def)

text \<open>
  In the example game: \<open>rusu\<close> violates continuity, an unknown word starting with the
  required unit violates the second rule, \<open>saru\<close> violates nothing.
\<close>

theorem send_word_first_violation_witness:
  "reachable example_game \<and>
   first_violation example_game (katakana_to_hiragana [0x308B, 0x3059]) = Some Continuity \<and>
   send_word [0x308B, 0x3059] example_game =
     (Inl (InvalidWordException (NotLastMora [0x308B, 0x3059] 0x3055)), example_game) \<and>
   first_violation example_game (katakana_to_hiragana [0x3055, 0x304B]) = Some KnownWord \<and>
   send_word [0x3055, 0x304B] example_game =
     (Inl (UnknownWordException (NotKnown [0x3055, 0x304B])), example_game) \<and>
   first_violation example_game (katakana_to_hiragana [0x3055, 0x308B]) = None \<and>
   (\<exists>w. fst (send_word [0x3055, 0x308B] example_game) = Inr w)"
proof -
  have n: "katakana_to_hiragana [0x308B, 0x3059] = [0x308B, 0x3059]"
    "katakana_to_hiragana [0x3055, 0x304B] = [0x3055, 0x304B]"
    by (simp_all add: katakana_to_hiragana_def kana_char_cases)
  have u: "required_unit example_game = 0x3055"
    by (simp add: required_unit_def small_to_big_def example_game_def asa_def)
  from send_word_first_violation [OF example_game_reachable, of "[0x308B, 0x3059]"]
    example_violation_rusu n u
  have a: "send_word [0x308B, 0x3059] example_game =
     (Inl (InvalidWordException (NotLastMora [0x308B, 0x3059] 0x3055)), example_game)"
    by simp
  from send_word_first_violation [OF example_game_reachable, of "[0x3055, 0x304B]"]
    example_violation_saka n
  have b: "send_word [0x3055, 0x304B] example_game =
     (Inl (UnknownWordException (NotKnown [0x3055, 0x304B])), example_game)"
    by simp
  from send_word_first_violation [OF example_game_reachable, of "[0x3055, 0x308B]"]
    example_violation_none
  have c: "\<exists>w. fst (send_word [0x3055, 0x308B] example_game) = Inr w"
    by simp
  from a b c example_game_reachable example_violation_rusu example_violation_saka
    example_violation_none
  show ?thesis by blast
qed

text \<open>
  C1 as stated fails for the empty input: it violates the continuity rule, which is the
  first one, but the call fails with IndexError, not with the invalid-word exception of
  that rule.
\<close>

theorem empty_text_raises_index_error:
  "reachable example_game \<and>
   first_violation example_game (katakana_to_hiragana []) = Some Continuity \<and>
   send_word [] example_game = (Inl IndexError, example_game) \<and>
   send_word [] example_game \<noteq>
     (Inl (rule_error example_game (katakana_to_hiragana []) Continuity), example_game)"
proof -
  have "first_violation example_game (katakana_to_hiragana []) = Some Continuity"
    by (simp add: first_violation_def katakana_to_hiragana_def)
  moreover have "send_word [] example_game = (Inl IndexError, example_game)"
    by (simp add: send_word_def Let_def validate_def last_mora_def py_last_def py_first_def
                  katakana_to_hiragana_def example_game_def)
  ultimately show ?thesis using example_game_reachable by simp
qed

section \<open>The engine's move\<close>

lemma small_to_big_fold: "small_to_big c = fold_small_form c"
  by (simp add: small_to_big_def fold_small_form_def)

text \<open>
  C2. \<open>next_word\<close> in a reachable state. The required unit is the last character of
  the last played word with the small forms folded. With exactly one word in the chain
  the call returns that word and the state is unchanged. Otherwise the sample is the
  first 10, at most, of the vocabulary entries that start with the required unit, are
  not in the chain, are nouns and do not end in the forbidden unit. If the sample is
  empty the call fails with the give-up failure and an unchanged state. If not, the
  call returns the word of the sample at the place the random source draws, and appends
  it to the chain. The choice is uniform: the words of the sample are distinct, the
  draws below the length of the sample give the words of the sample in their order,
  and so every word of the sample is the result of exactly one of these equally likely
  draws.
\<close>

theorem next_word_sample:
  assumes "reachable g"
  shows "required_unit g = fold_small_form (last (kana (last (seen_words g)))) \<and>
         (length (seen_words g) = 1 \<longrightarrow> next_word r g = (Inr (hd (seen_words g)), g)) \<and>
         (length (seen_words g) \<noteq> 1 \<and> sampled_candidates g = [] \<longrightarrow>
            next_word r g = (Inl (InvalidWordException GiveUp), g)) \<and>
         (length (seen_words g) \<noteq> 1 \<and> sampled_candidates g \<noteq> [] \<longrightarrow>
            next_word r g =
              (Inr (sampled_candidates g ! (r mod length (sampled_candidates g))),
               g\<lparr>seen_words := seen_words g @
                    [sampled_candidates g ! (r mod length (sampled_candidates g))]\<rparr>)) \<and>
         distinct (sampled_candidates g) \<and>
         (length (seen_words g) \<noteq> 1 \<longrightarrow>
            map (\<lambda>k. fst (next_word k g)) [0..<length (sampled_candidates g)] =
              map Inr (sampled_candidates g)) \<and>
         (length (seen_words g) \<noteq> 1 \<longrightarrow>
            (\<forall>w \<in> set (sampled_candidates g).
               card {k. k < length (sampled_candidates g) \<and> fst (next_word k g) = Inr w} = 1))"
proof -
  note inv = reachable_invariant [OF assms]
  note dist = sampled_candidates_distinct [OF assms]
  let ?cs = "sampled_candidates g"
  have unit: "required_unit g = fold_small_form (last (kana (last (seen_words g))))"
    by (simp add: required_unit_def small_to_big_fold)
  have one: "length (seen_words g) = 1 \<longrightarrow> next_word r g = (Inr (hd (seen_words g)), g)"
    using next_word_cases [OF inv, of r] by (cases "seen_words g") auto
  have none: "length (seen_words g) \<noteq> 1 \<and> ?cs = [] \<longrightarrow>
            next_word r g = (Inl (InvalidWordException GiveUp), g)"
    using next_word_cases [OF inv, of r] by blast
  have some: "length (seen_words g) \<noteq> 1 \<and> ?cs \<noteq> [] \<longrightarrow>
            next_word r g =
              (Inr (?cs ! (r mod length ?cs)),
               g\<lparr>seen_words := seen_words g @ [?cs ! (r mod length ?cs)]\<rparr>)"
    using next_word_cases [OF inv, of r] by (simp add: update_seen_def)
  have draw: "fst (next_word k g) = Inr (?cs ! k)"
    if "length (seen_words g) \<noteq> 1" and "k < length ?cs" for k
  proof -
    from that have "?cs \<noteq> []" by auto
    with that next_word_cases [OF inv, of k] show ?thesis by simp
  qed
  have draws: "length (seen_words g) \<noteq> 1 \<longrightarrow>
            map (\<lambda>k. fst (next_word k g)) [0..<length ?cs] = map Inr ?cs"
  proof
    assume l: "length (seen_words g) \<noteq> 1"
    show "map (\<lambda>k. fst (next_word k g)) [0..<length ?cs] = map Inr ?cs"
      by (rule nth_equalityI) (simp_all add: draw [OF l])
  qed
  have once: "length (seen_words g) \<noteq> 1 \<longrightarrow>
            (\<forall>w \<in> set ?cs. card {k. k < length ?cs \<and> fst (next_word k g) = Inr w} = 1)"
  proof (intro impI ballI)
    fix w assume l: "length (seen_words g) \<noteq> 1" and w: "w \<in> set ?cs"
    from w obtain i where i: "i < length ?cs" "?cs ! i = w"
      by (auto simp: in_set_conv_nth)
    have "{k. k < length ?cs \<and> fst (next_word k g) = Inr w} = {i}"
    proof (rule set_eqI)
      fix k
      show "k \<in> {k. k < length ?cs \<and> fst (next_word k g) = Inr w} \<longleftrightarrow> k \<in> {i}"
      proof (cases "k < length ?cs")
        case True
        with draw [OF l True] i dist show ?thesis
          by (auto simp: nth_eq_iff_index_eq)
      next
        case False
        with i show ?thesis by auto
      qed
    qed
    then show "card {k. k < length ?cs \<and> fst (next_word k g) = Inr w} = 1" by simp
  qed
  from unit one none some dist draws once show ?thesis by blast
qed

lemma ocha_game_init:
  "Game_init [ao, ocha, yama, yane] None (\<lambda>_. 0) =
     Some (Inr (ocha_game\<lparr>seen_words := [ao], player_score := 0\<rparr>))"
proof -
  have kw: "build_known_words (resolve_max_rank [ao, ocha, yama, yane] None) []
              [ao, ocha, yama, yane]
      = [([0x3042, 0x304A], ao), ([0x304A, 0x3061, 0x3083], ocha),
         ([0x3084, 0x307E], yama), ([0x3084, 0x306D], yane)]"
    by (simp add: resolve_max_rank_def ao_def ocha_def yama_def yane_def
                  katakana_to_hiragana_def kana_char_cases)
  have "pick_initial [([0x3042, 0x304A], ao), ([0x304A, 0x3061, 0x3083], ocha),
         ([0x3084, 0x307E], yama), ([0x3084, 0x306D], yane)]
          (\<lambda>_. 0) 0 = Some (Inr ao)"
    by (subst pick_initial.simps)
       (simp add: random_choice_def dict_keys_def dict_getitem_def py_last_def ao_def
                  HIRAGANA_LETTER_N_def)
  with kw show ?thesis
    by (simp add: Game_init_def update_seen_def ocha_game_def)
qed

lemma ocha_game_send:
  "send_word [0x304A, 0x3061, 0x3083] (ocha_game\<lparr>seen_words := [ao], player_score := 0\<rparr>) =
     (Inr ocha, ocha_game)"
  by (simp add: send_word_def Let_def validate_def last_mora_def py_last_def py_first_def
                dict_contains_def dict_getitem_def endswith_def update_seen_def
                katakana_to_hiragana_def kana_char_cases small_to_big_def
                ocha_game_def ao_def ocha_def HIRAGANA_LETTER_N_def)

lemma ocha_game_reachable: "reachable ocha_game"
  by (rule reach_send [OF reach_init [OF ocha_game_init] ocha_game_send])

lemma ocha_game_sampled: "sampled_candidates ocha_game = [yama, yane]"
  by (simp add: sampled_candidates_def eligible_def required_unit_def small_to_big_def
                ocha_game_def ao_def ocha_def yama_def yane_def HIRAGANA_LETTER_N_def)

text \<open>
  One word in the chain; an empty sample; and, after a word that ends in a small ya, a
  sample of the two words that start with the full-size ya, each chosen by one of the
  two draws.
\<close>

theorem next_word_sample_witness:
  "reachable example_game \<and> length (seen_words example_game) = 1 \<and>
   next_word 0 example_game = (Inr asa, example_game) \<and>
   reachable example_game2 \<and> length (seen_words example_game2) \<noteq> 1 \<and>
   sampled_candidates example_game2 = [] \<and>
   next_word 0 example_game2 = (Inl (InvalidWordException GiveUp), example_game2) \<and>
   reachable ocha_game \<and> length (seen_words ocha_game) \<noteq> 1 \<and>
   last (kana (last (seen_words ocha_game))) = 0x3083 \<and>
   required_unit ocha_game = 0x3084 \<and>
   sampled_candidates ocha_game = [yama, yane] \<and>
   next_word 0 ocha_game = (Inr yama, ocha_game\<lparr>seen_words := [ao, ocha, yama]\<rparr>) \<and>
   next_word 1 ocha_game = (Inr yane, ocha_game\<lparr>seen_words := [ao, ocha, yane]\<rparr>) \<and>
   map (\<lambda>k. fst (next_word k ocha_game)) [0..<2] = [Inr yama, Inr yane] \<and>
   card {k. k < 2 \<and> fst (next_word k ocha_game) = Inr yane} = 1"
proof -
  have l: "seen_words example_game = [asa]"
    "seen_words example_game2 = [asa, saru, rusu]"
    "seen_words ocha_game = [ao, ocha]"
    by (simp_all add: example_game_def example_game2_def ocha_game_def)
  have m: "last (kana (last (seen_words ocha_game))) = 0x3083"
    by (simp add: ocha_game_def ocha_def)
  have f: "fold_small_form 0x3083 = 0x3084"
    by (simp add: fold_small_form_def)
  from next_word_sample [OF example_game_reachable, of 0] l
  have a: "next_word 0 example_game = (Inr asa, example_game)" by simp
  from next_word_sample [OF example_game2_reachable, of 0] l example_sampled2
  have b: "next_word 0 example_game2 = (Inl (InvalidWordException GiveUp), example_game2)"
    by simp
  note o = next_word_sample [OF ocha_game_reachable]
  from o [of 0] m f have u: "required_unit ocha_game = 0x3084" by simp
  from o [of 0] l ocha_game_sampled
  have c: "next_word 0 ocha_game = (Inr yama, ocha_game\<lparr>seen_words := [ao, ocha, yama]\<rparr>)"
    by simp
  from o [of 1] l ocha_game_sampled
  have d: "next_word 1 ocha_game = (Inr yane, ocha_game\<lparr>seen_words := [ao, ocha, yane]\<rparr>)"
    by simp
  from o [of 0] l ocha_game_sampled
  have e: "map (\<lambda>k. fst (next_word k ocha_game)) [0..<2] = [Inr yama, Inr yane]"
    by (simp add: numeral_2_eq_2)
  from o [of 0] l ocha_game_sampled
  have g: "card {k. k < 2 \<and> fst (next_word k ocha_game) = Inr yane} = 1"
    by (simp add: numeral_2_eq_2)
  from a b c d e g u m l example_game_reachable example_game2_reachable ocha_game_reachable
    example_sampled2 ocha_game_sampled
  show ?thesis by simp
qed

section \<open>Continuity of the chain\<close>

text \<open>
  What does hold: \<open>next_word\<close> keeps the chain continuous, and so does
  \<open>send_word\<close> where the readings of the vocabulary are already normalized, the
  stored reading being then the text that was checked.
\<close>

lemma continuity_snoc:
  "continuity (ws @ [w]) =
     (continuity ws \<and>
      (ws \<noteq> [] \<longrightarrow> kana (last ws) \<noteq> [] \<and> kana w \<noteq> [] \<and>
         hd (kana w) = small_to_big (last (kana (last ws)))))"
  by (induction ws rule: continuity.induct) auto

lemma next_word_keeps_continuity:
  assumes inv: "game_invariant g" and c: "continuity (seen_words g)"
    and step: "next_word r g = (res, g')"
  shows "continuity (seen_words g')"
proof (cases "length (seen_words g) \<noteq> 1 \<and> sampled_candidates g \<noteq> []")
  case False
  with next_word_cases [OF inv, of r] step have "g' = g" by auto
  with c show ?thesis by simp
next
  case True
  let ?w = "sampled_candidates g ! (r mod length (sampled_candidates g))"
  from True have "?w \<in> set (sampled_candidates g)" by simp
  then have e: "eligible g ?w" by (simp add: sampled_candidates_eligible)
  from True next_word_cases [OF inv, of r] step have "g' = update_seen ?w g" by auto
  with inv c e show ?thesis
    by (simp add: continuity_snoc update_seen_def eligible_def required_unit_def
                  game_invariant_def)
qed

lemma send_word_keeps_continuity:
  assumes inv: "game_invariant g" and c: "continuity (seen_words g)"
    and step: "send_word raw g = (res, g')"
    and norm: "\<forall>(k, w) \<in> set (known_words g). katakana_to_hiragana (kana w) = kana w"
  shows "continuity (seen_words g')"
proof (cases "validate g (katakana_to_hiragana raw)")
  case (Inl e)
  with send_word_cases [of g raw] step have "g' = g" by auto
  with c show ?thesis by simp
next
  case (Inr u)
  let ?text = "katakana_to_hiragana raw"
  from validate_accepts [OF Inr] obtain w where
    t: "?text \<noteq> []" and h: "last_mora g = Inr (hd ?text)"
    and w: "map_of (known_words g) ?text = Some w" by blast
  from w have m: "(?text, w) \<in> set (known_words g)" by (rule map_of_SomeD)
  with inv have "?text = katakana_to_hiragana (kana w)"
    by (auto simp: game_invariant_def)
  with norm m have k: "kana w = ?text" by auto
  from h last_mora_required_unit [OF inv] have "hd ?text = required_unit g" by simp
  moreover from send_word_cases [of g raw] Inr w step
  have "g' = g\<lparr>seen_words := seen_words g @ [w], player_score := player_score g + 1\<rparr>"
    by auto
  ultimately show ?thesis using inv c t k
    by (simp add: continuity_snoc required_unit_def game_invariant_def)
qed

lemma continuity_of_normalized_vocabulary:
  assumes "reachable g"
    and "\<forall>(k, w) \<in> set (known_words g). katakana_to_hiragana (kana w) = kana w"
  shows "continuity (seen_words g)"
  using assms
proof (induction rule: reachable.induct)
  case (reach_init ws max_rank rnd g)
  from Game_init_result [OF reach_init(1)] obtain first where "seen_words g = [first]"
    by (metis Game.select_convs(3))
  then show ?case by simp
next
  case (reach_next g r res g')
  from reach_next(2) have "known_words g' = known_words g" by (rule next_word_known_words)
  with reach_next show ?case
    by (auto intro: next_word_keeps_continuity reachable_invariant)
next
  case (reach_send g raw res g')
  from reach_send(2) have kw: "known_words g' = known_words g" by (rule send_word_known_words)
  with reach_send have c: "continuity (seen_words g)" by simp
  from kw reach_send(4)
  have n: "\<forall>(k, w) \<in> set (known_words g). katakana_to_hiragana (kana w) = kana w" by simp
  show ?case
    by (rule send_word_keeps_continuity
          [OF reachable_invariant [OF reach_send(1)] c reach_send(2) n])
qed

lemma katakana_game_init:
  "Game_init [asa, saru_katakana] None (\<lambda>_. 0) = Some (Inr katakana_game)"
proof -
  have kw: "build_known_words (resolve_max_rank [asa, saru_katakana] None) [] [asa, saru_katakana]
      = [([0x3042, 0x3055], asa), ([0x3055, 0x308B], saru_katakana)]"
    by (simp add: resolve_max_rank_def asa_def saru_katakana_def katakana_to_hiragana_def
                  kana_char_cases)
  have "pick_initial [([0x3042, 0x3055], asa), ([0x3055, 0x308B], saru_katakana)]
          (\<lambda>_. 0) 0 = Some (Inr asa)"
    by (subst pick_initial.simps)
       (simp add: random_choice_def dict_keys_def dict_getitem_def py_last_def asa_def
                  HIRAGANA_LETTER_N_def)
  with kw show ?thesis
    by (simp add: Game_init_def update_seen_def katakana_game_def)
qed

text \<open>
  C3 fails on the code. The vocabulary holds \<open>saru\<close> with its reading in katakana;
  the index key is the normalized reading. After the initial word \<open>asa\<close> the player
  submits \<open>saru\<close> in hiragana: the normalized input passes the continuity check, the
  word of the index is appended with its katakana reading, and the first character of
  that reading is not the last character of the reading before it.
\<close>

theorem continuity_broken_by_katakana_reading:
  "Game_init [asa, saru_katakana] None (\<lambda>_. 0) = Some (Inr katakana_game) \<and>
   send_word [0x3055, 0x308B] katakana_game =
     (Inr saru_katakana,
      katakana_game\<lparr>seen_words := [asa, saru_katakana], player_score := 1\<rparr>) \<and>
   reachable (katakana_game\<lparr>seen_words := [asa, saru_katakana], player_score := 1\<rparr>) \<and>
   \<not> continuity (seen_words
         (katakana_game\<lparr>seen_words := [asa, saru_katakana], player_score := 1\<rparr>))"
proof -
  have s: "send_word [0x3055, 0x308B] katakana_game =
     (Inr saru_katakana,
      katakana_game\<lparr>seen_words := [asa, saru_katakana], player_score := 1\<rparr>)"
    by (simp add: send_word_def Let_def validate_def last_mora_def py_last_def py_first_def
                dict_contains_def dict_getitem_def endswith_def update_seen_def
                katakana_to_hiragana_def kana_char_cases small_to_big_def
                katakana_game_def asa_def saru_katakana_def HIRAGANA_LETTER_N_def)
  have r: "reachable (katakana_game\<lparr>seen_words := [asa, saru_katakana], player_score := 1\<rparr>)"
    by (rule reach_send [OF reach_init [OF katakana_game_init] s])
  have "\<not> continuity [asa, saru_katakana]"
    by (simp add: asa_def saru_katakana_def small_to_big_def)
  with katakana_game_init s r show ?thesis by simp
qed

end
